theory Spec2Isabelle
  imports Complex_Main "HOL-Library.AList"
begin

section \<open>Python values and exceptions\<close>

text \<open>
  The program is \<^verbatim>\<open>prod.py\<close>: a Flask service that forwards text to a language model
  and rebuilds JSON snapshots from the model's streamed answer. Python strings are
  modelled as \<^typ>\<open>string\<close>; a character stands for a code point below 256.

  The exceptions that the operations of the program can raise.
\<close>

datatype error = KeyError | TypeError | ValueError

text \<open>
  The values \<^verbatim>\<open>json.loads\<close> returns: \<^verbatim>\<open>None\<close>, booleans, numbers, strings, lists and
  dicts. A number keeps the literal it was read from. A dict is an association list
  in insertion order.
\<close>

datatype json =
    JNull
  | JBool bool
  | JNumber string
  | JString string
  | JArray "json list"
  | JObject "(string \<times> json) list"

section \<open>The chunker\<close>

text \<open>The code point of a character, Python's \<^verbatim>\<open>ord\<close>.\<close>

definition ord :: "char \<Rightarrow> nat" where
  "ord c = of_char c"

text \<open>
  \<^verbatim>\<open>str.isspace\<close> on one character, for the code points below 256: the ASCII controls
  9 to 13 and 28 to 31, the space, and the Latin-1 characters 133 and 160.
\<close>

definition isspace :: "char \<Rightarrow> bool" where
  "isspace c = (ord c \<in> {9, 10, 11, 12, 13, 28, 29, 30, 31, 32, 133, 160})"

text \<open>
  \<^verbatim>\<open>input_text.split()\<close> with no argument: runs of whitespace separate the words and
  no empty word is returned. The first argument is the word being read.
\<close>

fun split_from :: "string \<Rightarrow> string \<Rightarrow> string list" where
  "split_from w [] = (if w = [] then [] else [w])"
| "split_from w (c # cs) =
     (if isspace c then (if w = [] then split_from [] cs else w # split_from [] cs)
      else split_from (w @ [c]) cs)"

definition split :: "string \<Rightarrow> string list" where
  "split s = split_from [] s"

text \<open>\<^verbatim>\<open>' '.join(ws)\<close>.\<close>

fun join :: "string list \<Rightarrow> string" where
  "join [] = []"
| "join [w] = w"
| "join (w # v # ws) = w @ CHR '' '' # join (v # ws)"

text \<open>
  \<^verbatim>\<open>range(i, stop, step)\<close> for the calls the chunker makes: it counts up from \<open>i\<close>
  while below \<open>stop\<close>; with a negative step and \<open>i \<le> stop\<close> the range is empty.
  A zero step is an error, raised by the caller below.
\<close>

function py_range :: "int \<Rightarrow> int \<Rightarrow> int \<Rightarrow> int list" where
  "py_range i stop step =
     (if 0 < step \<and> i < stop then i # py_range (i + step) stop step else [])"
  by pat_completeness auto
termination
  by (relation "measure (\<lambda>(i, stop, step). nat (stop - i))") auto

declare py_range.simps [simp del]

text \<open>The slice \<^verbatim>\<open>xs[i:j]\<close> for indices that are not negative.\<close>

definition slice :: "'a list \<Rightarrow> int \<Rightarrow> int \<Rightarrow> 'a list" where
  "slice xs i j = take (nat j - nat i) (drop (nat i) xs)"

text \<open>
  \<^verbatim>\<open>
  def split_into_chunks(input_text, chunk_size=100):
      words = input_text.split()
      return [' '.join(words[i:i + chunk_size]) for i in range(0, len(words), chunk_size)]
  \<close>
  \<^verbatim>\<open>range\<close> raises \<^verbatim>\<open>ValueError\<close> on a zero step. With a negative \<open>chunk_size\<close> the
  range is empty, so no slice with a negative bound is ever taken.
\<close>

definition split_into_chunks :: "string \<Rightarrow> int \<Rightarrow> error + string list" where
  "split_into_chunks input_text chunk_size =
     (let words = split input_text in
      if chunk_size = 0 then Inl ValueError
      else Inr (map (\<lambda>i. join (slice words i (i + chunk_size)))
                    (py_range 0 (int (length words)) chunk_size)))"

section \<open>The JSON reader\<close>

text \<open>
  \<^verbatim>\<open>json.loads\<close> belongs to Python's library, not to the program. The functions of the
  program below take it as the parameter \<open>loads\<close>, with \<open>None\<close> for \<^verbatim>\<open>JSONDecodeError\<close>,
  so that what is proved of them holds of any reader. \<open>json_loads\<close> is a reader for
  the JSON grammar as Python accepts it, used where a concrete text is evaluated. It
  works in two passes: characters to tokens, then tokens to a value with an explicit
  stack of open containers.

  One gap: an escape \<^verbatim>\<open>\uXXXX\<close> for a code point of 256 or more has no character in
  this model, and \<open>json_loads\<close> gives \<open>None\<close> for it. No text evaluated below has one.
  A reader is a function to an option, so \<^verbatim>\<open>JSONDecodeError\<close> is the only way it fails;
  the limits of the Python implementation (nesting depth, digits of an integer) are
  outside the model.
\<close>

datatype token =
    LBrace | RBrace | LBrack | RBrack | Colon | Comma
  | TString string
  | TWord string

datatype lex_mode =
    Between
  | In_word string
  | In_string string
  | In_escape string
  | In_unicode string string

definition between :: "char \<Rightarrow> char \<Rightarrow> char \<Rightarrow> bool" where
  "between lo hi c = (ord lo \<le> ord c \<and> ord c \<le> ord hi)"

definition is_digit :: "char \<Rightarrow> bool" where
  "is_digit c = between (CHR ''0'') (CHR ''9'') c"

definition is_alpha :: "char \<Rightarrow> bool" where
  "is_alpha c = (between (CHR ''a'') (CHR ''z'') c \<or> between (CHR ''A'') (CHR ''Z'') c)"

text \<open>The characters of numbers and of the literal names.\<close>

definition is_word_char :: "char \<Rightarrow> bool" where
  "is_word_char c = (is_digit c \<or> is_alpha c \<or> c = CHR ''+'' \<or> c = CHR ''-'' \<or> c = CHR ''.'')"

text \<open>JSON whitespace: space, tab, line feed, carriage return.\<close>

definition is_json_space :: "char \<Rightarrow> bool" where
  "is_json_space c = (c = CHR '' '' \<or> c = CHR 0x09 \<or> c = CHR 0x0A \<or> c = CHR 0x0D)"

definition hex_value :: "char \<Rightarrow> nat option" where
  "hex_value c =
     (if is_digit c then Some (ord c - 48)
      else if between (CHR ''a'') (CHR ''f'') c then Some (ord c - 87)
      else if between (CHR ''A'') (CHR ''F'') c then Some (ord c - 55)
      else None)"

definition hex_number :: "string \<Rightarrow> nat option" where
  "hex_number h =
     fold (\<lambda>c acc. case (acc, hex_value c) of
                      (Some n, Some d) \<Rightarrow> Some (16 * n + d)
                    | _ \<Rightarrow> None) h (Some 0)"

text \<open>The character an escape letter stands for; \<open>u\<close> is handled apart.\<close>

definition escape_char :: "char \<Rightarrow> char option" where
  "escape_char c =
     (if c = CHR 0x22 then Some (CHR 0x22)
      else if c = CHR 0x5C then Some (CHR 0x5C)
      else if c = CHR ''/'' then Some (CHR ''/'')
      else if c = CHR ''b'' then Some (CHR 0x08)
      else if c = CHR ''f'' then Some (CHR 0x0C)
      else if c = CHR ''n'' then Some (CHR 0x0A)
      else if c = CHR ''r'' then Some (CHR 0x0D)
      else if c = CHR ''t'' then Some (CHR 0x09)
      else None)"

definition punctuation :: "char \<Rightarrow> token option" where
  "punctuation c =
     (if c = CHR ''{'' then Some LBrace
      else if c = CHR ''}'' then Some RBrace
      else if c = CHR ''['' then Some LBrack
      else if c = CHR '']'' then Some RBrack
      else if c = CHR '':'' then Some Colon
      else if c = CHR '','' then Some Comma
      else None)"

text \<open>
  The first pass. A word is a maximal run of word characters; whether it is a number
  or a literal is decided by the second pass. A string ends at the first quote that
  is not escaped; a control character inside a string is an error, as in Python's
  strict mode.
\<close>

function lex :: "lex_mode \<Rightarrow> string \<Rightarrow> token list option" where
  "lex Between [] = Some []"
| "lex (In_word w) [] = Some [TWord w]"
| "lex (In_string s) [] = None"
| "lex (In_escape s) [] = None"
| "lex (In_unicode s h) [] = None"
| "lex Between (c # cs) =
     (case punctuation c of
        Some t \<Rightarrow> map_option ((#) t) (lex Between cs)
      | None \<Rightarrow>
          if c = CHR 0x22 then lex (In_string []) cs
          else if is_json_space c then lex Between cs
          else if is_word_char c then lex (In_word [c]) cs
          else None)"
| "lex (In_word w) (c # cs) =
     (if is_word_char c then lex (In_word (w @ [c])) cs
      else map_option ((#) (TWord w)) (lex Between (c # cs)))"
| "lex (In_string s) (c # cs) =
     (if c = CHR 0x22 then map_option ((#) (TString s)) (lex Between cs)
      else if c = CHR 0x5C then lex (In_escape s) cs
      else if ord c < 32 then None
      else lex (In_string (s @ [c])) cs)"
| "lex (In_escape s) (c # cs) =
     (if c = CHR ''u'' then lex (In_unicode s []) cs
      else case escape_char c of
             Some d \<Rightarrow> lex (In_string (s @ [d])) cs
           | None \<Rightarrow> None)"
| "lex (In_unicode s h) (c # cs) =
     (if length h < 3 then (if hex_value c = None then None else lex (In_unicode s (h @ [c])) cs)
      else case hex_number (h @ [c]) of
             None \<Rightarrow> None
           | Some n \<Rightarrow> if n < 256 then lex (In_string (s @ [char_of n])) cs else None)"
  by pat_completeness auto
termination
  by (relation "measure (\<lambda>(m, cs). 2 * length cs + (case m of In_word w \<Rightarrow> 1 | _ \<Rightarrow> 0))") auto

text \<open>
  Numbers, by Python's pattern
  \<^verbatim>\<open>-?(0|[1-9][0-9]*)(\.[0-9]+)?([eE][-+]?[0-9]+)?\<close>, matched against the whole word.
\<close>

definition digits1 :: "string \<Rightarrow> bool" where
  "digits1 w = (w \<noteq> [] \<and> list_all is_digit w)"

fun exp_part :: "string \<Rightarrow> bool" where
  "exp_part [] = True"
| "exp_part (e # r) =
     ((e = CHR ''e'' \<or> e = CHR ''E'') \<and>
      (case r of
         [] \<Rightarrow> False
       | s # r' \<Rightarrow> if s = CHR ''+'' \<or> s = CHR ''-'' then digits1 r' else digits1 r))"

fun frac_part :: "string \<Rightarrow> bool" where
  "frac_part (p # d # r) =
     (if p = CHR ''.'' then is_digit d \<and> exp_part (dropWhile is_digit r)
      else exp_part (p # d # r))"
| "frac_part r = exp_part r"

fun int_part :: "string \<Rightarrow> bool" where
  "int_part [] = False"
| "int_part (d # r) =
     (if d = CHR ''0'' then frac_part r
      else is_digit d \<and> frac_part (dropWhile is_digit r))"

definition is_number :: "string \<Rightarrow> bool" where
  "is_number w = (case w of [] \<Rightarrow> False | c # r \<Rightarrow> if c = CHR ''-'' then int_part r else int_part w)"

text \<open>The value of a word; Python also reads \<^verbatim>\<open>NaN\<close>, \<^verbatim>\<open>Infinity\<close> and \<^verbatim>\<open>-Infinity\<close>.\<close>

definition value_of_word :: "string \<Rightarrow> json option" where
  "value_of_word w =
     (if w = ''null'' then Some JNull
      else if w = ''true'' then Some (JBool True)
      else if w = ''false'' then Some (JBool False)
      else if w = ''NaN'' \<or> w = ''Infinity'' \<or> w = ''-Infinity'' \<or> is_number w
        then Some (JNumber w)
      else None)"

text \<open>
  The second pass keeps a stack of the containers that are open and what may come
  next. A key given twice keeps its first place and takes the last value, as a
  Python dict does.
\<close>

datatype frame =
    In_array "json list"
  | In_object "(string \<times> json) list"
  | In_member "(string \<times> json) list" string

datatype expect =
    Value
  | Value_or_close
  | Key
  | Key_or_close
  | Colon_next
  | Comma_or_close
  | Finished json

fun complete :: "json \<Rightarrow> frame list \<Rightarrow> (expect \<times> frame list) option" where
  "complete v [] = Some (Finished v, [])"
| "complete v (In_array items # st) = Some (Comma_or_close, In_array (items @ [v]) # st)"
| "complete v (In_member ms k # st) = Some (Comma_or_close, In_object (AList.update k v ms) # st)"
| "complete v (In_object ms # st) = None"

definition start_value :: "token \<Rightarrow> frame list \<Rightarrow> (expect \<times> frame list) option" where
  "start_value t st =
     (case t of
        LBrace \<Rightarrow> Some (Key_or_close, In_object [] # st)
      | LBrack \<Rightarrow> Some (Value_or_close, In_array [] # st)
      | TString s \<Rightarrow> complete (JString s) st
      | TWord w \<Rightarrow> (case value_of_word w of None \<Rightarrow> None | Some v \<Rightarrow> complete v st)
      | _ \<Rightarrow> None)"

definition close_array :: "frame list \<Rightarrow> (expect \<times> frame list) option" where
  "close_array st = (case st of In_array items # st' \<Rightarrow> complete (JArray items) st' | _ \<Rightarrow> None)"

definition close_object :: "frame list \<Rightarrow> (expect \<times> frame list) option" where
  "close_object st = (case st of In_object ms # st' \<Rightarrow> complete (JObject ms) st' | _ \<Rightarrow> None)"

definition start_member :: "string \<Rightarrow> frame list \<Rightarrow> (expect \<times> frame list) option" where
  "start_member k st =
     (case st of In_object ms # st' \<Rightarrow> Some (Colon_next, In_member ms k # st') | _ \<Rightarrow> None)"

fun parse_step :: "expect \<Rightarrow> token \<Rightarrow> frame list \<Rightarrow> (expect \<times> frame list) option" where
  "parse_step Value t st = start_value t st"
| "parse_step Value_or_close t st = (if t = RBrack then close_array st else start_value t st)"
| "parse_step Key t st = (case t of TString k \<Rightarrow> start_member k st | _ \<Rightarrow> None)"
| "parse_step Key_or_close t st =
     (case t of TString k \<Rightarrow> start_member k st | RBrace \<Rightarrow> close_object st | _ \<Rightarrow> None)"
| "parse_step Colon_next t st = (if t = Colon then Some (Value, st) else None)"
| "parse_step Comma_or_close t st =
     (case t of
        Comma \<Rightarrow> (case st of
                     In_array items # st' \<Rightarrow> Some (Value, st)
                   | In_object ms # st' \<Rightarrow> Some (Key, st)
                   | _ \<Rightarrow> None)
      | RBrack \<Rightarrow> close_array st
      | RBrace \<Rightarrow> close_object st
      | _ \<Rightarrow> None)"
| "parse_step (Finished v) t st = None"

fun parse_tokens :: "expect \<Rightarrow> frame list \<Rightarrow> token list \<Rightarrow> json option" where
  "parse_tokens e st [] = (case e of Finished v \<Rightarrow> Some v | _ \<Rightarrow> None)"
| "parse_tokens e st (t # ts) =
     (case parse_step e t st of
        None \<Rightarrow> None
      | Some (e', st') \<Rightarrow> parse_tokens e' st' ts)"

definition json_loads :: "string \<Rightarrow> json option" where
  "json_loads s = (case lex Between s of None \<Rightarrow> None | Some ts \<Rightarrow> parse_tokens Value [] ts)"

section \<open>Operations on Python values\<close>

text \<open>
  \<^verbatim>\<open>obj[key]\<close> with a string key: \<^verbatim>\<open>KeyError\<close> when a dict has no such key, \<^verbatim>\<open>TypeError\<close>
  when the value is not a dict.
\<close>

definition subscript :: "json \<Rightarrow> string \<Rightarrow> error + json" where
  "subscript obj k =
     (case obj of
        JObject ms \<Rightarrow> (case map_of ms k of None \<Rightarrow> Inl KeyError | Some v \<Rightarrow> Inr v)
      | _ \<Rightarrow> Inl TypeError)"

text \<open>\<^verbatim>\<open>obj[key] = v\<close> on a dict; it is only reached after \<^verbatim>\<open>obj[key]\<close> was read.\<close>

definition setitem :: "json \<Rightarrow> string \<Rightarrow> json \<Rightarrow> json" where
  "setitem obj k v = (case obj of JObject ms \<Rightarrow> JObject (AList.update k v ms) | _ \<Rightarrow> obj)"

text \<open>\<^verbatim>\<open>results + x\<close>: a list can only be concatenated with a list.\<close>

definition list_add :: "json list \<Rightarrow> json \<Rightarrow> error + json list" where
  "list_add results x = (case x of JArray xs \<Rightarrow> Inr (results @ xs) | _ \<Rightarrow> Inl TypeError)"

text \<open>
  \<^verbatim>\<open>results.extend(x)\<close> takes any iterable: a list gives its items, a string its
  characters, a dict its keys; the other values are not iterable.
\<close>

definition list_extend :: "json list \<Rightarrow> json \<Rightarrow> error + json list" where
  "list_extend results x =
     (case x of
        JArray xs \<Rightarrow> Inr (results @ xs)
      | JString s \<Rightarrow> Inr (results @ map (\<lambda>c. JString [c]) s)
      | JObject ms \<Rightarrow> Inr (results @ map (\<lambda>m. JString (fst m)) ms)
      | _ \<Rightarrow> Inl TypeError)"

text \<open>\<^verbatim>\<open>s.rfind(c)\<close> for a one-character \<open>c\<close>: the last index of \<open>c\<close>, or \<open>-1\<close>.\<close>

definition rfind :: "string \<Rightarrow> char \<Rightarrow> int" where
  "rfind s c =
     (if c \<in> set s then int (length s) - 1 - int (length (takeWhile (\<lambda>x. x \<noteq> c) (rev s)))
      else - 1)"

text \<open>The slice \<^verbatim>\<open>s[:i]\<close>; a negative \<open>i\<close> counts from the end.\<close>

definition slice_to :: "'a list \<Rightarrow> int \<Rightarrow> 'a list" where
  "slice_to s i = (if i < 0 then take (length s - nat (- i)) s else take (nat i) s)"

section \<open>The response generator\<close>

text \<open>
  One record of the stream \<^verbatim>\<open>ollama.chat(..., stream=True)\<close> yields: \<^verbatim>\<open>chunk["done"]\<close> and
  \<^verbatim>\<open>chunk['message']['content']\<close>.
\<close>

record chat_chunk =
  chunk_done :: bool
  chunk_content :: string

text \<open>
  The two entries of \<^verbatim>\<open>system_prompts\<close>. The program passes their text to the model
  and never looks into it.
\<close>

datatype system_prompt = Detect_prompt | Abstract_prompt

text \<open>
  The inference engine, \<^verbatim>\<open>ollama.chat\<close>, is a parameter: from the model name, the system
  prompt and the user text to the records it streams. It is taken as a function: the
  program fixes the temperature at 0, and the same prompt gets the same stream.
\<close>

type_synonym engine = "string \<Rightarrow> system_prompt \<Rightarrow> string \<Rightarrow> chat_chunk list"

text \<open>
  What the generator does that a client or an operator can see: \<open>Snapshot\<close> is the
  \<^verbatim>\<open>yield\<close> of line 108, carrying the object that \<^verbatim>\<open>json.dumps\<close> serialises;
  \<open>Decode_error\<close> is the report of lines 112 and 113, carrying the delta;
  \<open>Error_in_buffer\<close> is the report of line 94, carrying \<^verbatim>\<open>last_parsed_content\<close>.
  The other prints and the timing log are left out, and so are failures of the engine
  and of the log file: the model covers what the generator does with the records the
  engine delivers.
\<close>

datatype event =
    Snapshot json
  | Decode_error string
  | Error_in_buffer string

text \<open>
  Line 101, the repaired prefix:
  \<^verbatim>\<open>
  temp_prefix = buffer + content
  json_str = temp_prefix[:temp_prefix.rfind("]")] + "]}" if "]" in content
             else temp_prefix[:temp_prefix.rfind("}")] + "}]}"
  \<close>
\<close>

definition repaired_prefix :: "string \<Rightarrow> string \<Rightarrow> string" where
  \<open>repaired_prefix buffer content =
     (let temp_prefix = buffer @ content in
      if CHR '']'' \<in> set content
      then slice_to temp_prefix (rfind temp_prefix (CHR '']'')) @ '']}''
      else slice_to temp_prefix (rfind temp_prefix (CHR ''}'')) @ ''}]}'')\<close>

text \<open>
  Lines 97 to 114, the handling of one record that is not the last:
  \<^verbatim>\<open>
  try:
      if "]" in content or "}" in content:
          json_str = ...
          last_parsed_content = json_str
          parsed_content = json.loads(json_str)
          parsed_content["results"] = results + parsed_content["results"]
          yield f"{json.dumps(parsed_content)}\n"
      buffer += content
  except json.JSONDecodeError as e:
      continue
  \<close>
  The result is the exception that leaves the generator, or the events of this round
  with the new \<^verbatim>\<open>buffer\<close> and \<^verbatim>\<open>last_parsed_content\<close>. When \<^verbatim>\<open>json.loads\<close> raises, the
  assignment to \<^verbatim>\<open>last_parsed_content\<close> has been made and \<^verbatim>\<open>buffer += content\<close> has not.
\<close>

definition handle_delta ::
  "(string \<Rightarrow> json option) \<Rightarrow> json list \<Rightarrow> string \<Rightarrow> string \<Rightarrow> string
     \<Rightarrow> error + (event list \<times> string \<times> string)" where
  \<open>handle_delta loads results buffer last_parsed_content content =
     (if CHR '']'' \<in> set content \<or> CHR ''}'' \<in> set content then
        (let json_str = repaired_prefix buffer content in
         case loads json_str of
           None \<Rightarrow> Inr ([Decode_error content], buffer, json_str)
         | Some parsed_content \<Rightarrow>
             (case subscript parsed_content ''results'' of
                Inl e \<Rightarrow> Inl e
              | Inr r \<Rightarrow>
                  (case list_add results r of
                     Inl e \<Rightarrow> Inl e
                   | Inr merged \<Rightarrow>
                       Inr ([Snapshot (setitem parsed_content ''results'' (JArray merged))],
                            buffer @ content, json_str))))
      else Inr ([], buffer @ content, last_parsed_content))\<close>

text \<open>
  Lines 90 to 95, the last record of a stream:
  \<^verbatim>\<open>
  if chunk["done"]:
      try:
          results.extend(json.loads(last_parsed_content)["results"])
      except json.JSONDecodeError as e:
          print("error in buffer: ", last_parsed_content)
      break
  \<close>
\<close>

definition handle_done ::
  "(string \<Rightarrow> json option) \<Rightarrow> json list \<Rightarrow> string \<Rightarrow> event list \<times> (error + json list)" where
  \<open>handle_done loads results last_parsed_content =
     (case loads last_parsed_content of
        None \<Rightarrow> ([Error_in_buffer last_parsed_content], Inr results)
      | Some parsed \<Rightarrow>
          (case subscript parsed ''results'' of
             Inl e \<Rightarrow> ([], Inl e)
           | Inr r \<Rightarrow> ([], list_extend results r)))\<close>

text \<open>
  The inner loop over the records of one stream. It returns the events and either
  the exception that leaves the generator or \<^verbatim>\<open>results\<close> after the loop. A stream that
  ends with no record marked done leaves \<^verbatim>\<open>results\<close> as it is.
\<close>

fun consume_stream ::
  "(string \<Rightarrow> json option) \<Rightarrow> json list \<Rightarrow> string \<Rightarrow> string \<Rightarrow> chat_chunk list
     \<Rightarrow> event list \<times> (error + json list)" where
  "consume_stream loads results buffer last_parsed_content [] = ([], Inr results)"
| "consume_stream loads results buffer last_parsed_content (chunk # rest) =
     (if chunk_done chunk then handle_done loads results last_parsed_content
      else case handle_delta loads results buffer last_parsed_content (chunk_content chunk) of
             Inl e \<Rightarrow> ([], Inl e)
           | Inr (evs, buffer', last') \<Rightarrow>
               (case consume_stream loads results buffer' last' rest of
                  (evs', r) \<Rightarrow> (evs @ evs', r)))"

text \<open>
  A run of the generator to its end: the events in order, the user texts of the model
  invocations in order, and how it ended: with an exception, or normally with the
  final \<^verbatim>\<open>results\<close>.
\<close>

record run =
  events :: "event list"
  invocations :: "string list"
  outcome :: "error + json list"

text \<open>
  The outer loop, lines 76 to 114: one invocation of the model for each prompt chunk,
  each starting from an empty \<^verbatim>\<open>buffer\<close> and \<^verbatim>\<open>last_parsed_content\<close>.
\<close>

fun process_chunks ::
  "(string \<Rightarrow> json option) \<Rightarrow> engine \<Rightarrow> string \<Rightarrow> system_prompt \<Rightarrow> json list \<Rightarrow> string list
     \<Rightarrow> run" where
  "process_chunks loads chat model_name sp results [] =
     \<lparr>events = [], invocations = [], outcome = Inr results\<rparr>"
| "process_chunks loads chat model_name sp results (prompt_chunk # rest) =
     (case consume_stream loads results [] [] (chat model_name sp prompt_chunk) of
        (evs, Inl e) \<Rightarrow> \<lparr>events = evs, invocations = [prompt_chunk], outcome = Inl e\<rparr>
      | (evs, Inr results') \<Rightarrow>
          (let r = process_chunks loads chat model_name sp results' rest in
           \<lparr>events = evs @ events r, invocations = prompt_chunk # invocations r,
            outcome = outcome r\<rparr>))"

text \<open>
  \<^verbatim>\<open>
  def get_response_stream(model_name, system_prompt, user_message, chunking):
      if chunking:
          prompt_chunks = split_into_chunks(user_message)
      else:
          prompt_chunks = [user_message]
      results = []
      for prompt_chunk in prompt_chunks: ...
  \<close>
  \<open>prompt_chunks\<close> is the list of lines 71 to 74; the call of the chunker uses its default
  size of 100 and so cannot raise, but the model keeps the branch.
\<close>

definition prompt_chunks :: "string \<Rightarrow> bool \<Rightarrow> error + string list" where
  "prompt_chunks user_message chunking =
     (if chunking then split_into_chunks user_message 100 else Inr [user_message])"

definition get_response_stream ::
  "(string \<Rightarrow> json option) \<Rightarrow> engine \<Rightarrow> string \<Rightarrow> system_prompt \<Rightarrow> string \<Rightarrow> bool \<Rightarrow> run" where
  "get_response_stream loads chat model_name sp user_message chunking =
     (case prompt_chunks user_message chunking of
        Inl e \<Rightarrow> \<lparr>events = [], invocations = [], outcome = Inl e\<rparr>
      | Inr ps \<Rightarrow> process_chunks loads chat model_name sp [] ps)"

section \<open>The endpoints\<close>

definition global_base_model :: string where
  "global_base_model = ''llama3''"

text \<open>
  A reply is either \<^verbatim>\<open>jsonify(body), status\<close> or a streamed \<^verbatim>\<open>Response\<close> over a run of
  the generator.
\<close>

datatype response =
    Json_response nat json
  | Stream_response run

text \<open>
  The request body is a JSON object whose fields are strings;
  \<^verbatim>\<open>data.get('message', '')\<close> reads the field or gives the empty string.
  \<^verbatim>\<open>
  input_text = data.get('message', '')
  if not input_text:
      return jsonify({"error": "No message provided"}), 400
  return Response(get_response_stream(global_base_model, system_prompts["detect"],
                                      input_text, True), ...)
  \<close>
\<close>

definition get_message :: "(string \<rightharpoonup> string) \<Rightarrow> string" where
  "get_message data = (case data ''message'' of None \<Rightarrow> [] | Some m \<Rightarrow> m)"

definition detect ::
  "(string \<Rightarrow> json option) \<Rightarrow> engine \<Rightarrow> (string \<rightharpoonup> string) \<Rightarrow> response" where
  "detect loads chat data =
     (let input_text = get_message data in
      if input_text = [] then Json_response 400 (JObject [(''error'', JString ''No message provided'')])
      else Stream_response
             (get_response_stream loads chat global_base_model Detect_prompt input_text True))"

definition abstract ::
  "(string \<Rightarrow> json option) \<Rightarrow> engine \<Rightarrow> (string \<rightharpoonup> string) \<Rightarrow> response" where
  "abstract loads chat data =
     (let input_text = get_message data in
      if input_text = [] then Json_response 400 (JObject [(''error'', JString ''No message provided'')])
      else Stream_response
             (get_response_stream loads chat global_base_model Abstract_prompt input_text False))"

text \<open>The model invocations a reply has caused, and the snapshots it streams.\<close>

definition model_calls :: "response \<Rightarrow> string list" where
  "model_calls rsp = (case rsp of Json_response status body \<Rightarrow> [] | Stream_response r \<Rightarrow> invocations r)"

fun snapshots :: "event list \<Rightarrow> json list" where
  "snapshots [] = []"
| "snapshots (Snapshot s # evs) = s # snapshots evs"
| "snapshots (ev # evs) = snapshots evs"

text \<open>The result list of a snapshot, \<^verbatim>\<open>snapshot["results"]\<close>.\<close>

definition results_of :: "json \<Rightarrow> error + json" where
  "results_of snapshot = subscript snapshot ''results''"

section \<open>Auxiliary notions for stating the properties\<close>

text \<open>
  The inner loop over a run of deltas, none of them the last record: the events, and
  either the exception raised or \<^verbatim>\<open>buffer\<close> and \<^verbatim>\<open>last_parsed_content\<close> after the run.
\<close>

fun run_deltas ::
  "(string \<Rightarrow> json option) \<Rightarrow> json list \<Rightarrow> string \<Rightarrow> string \<Rightarrow> string list
     \<Rightarrow> event list \<times> (error + string \<times> string)" where
  "run_deltas loads results buffer last_parsed_content [] = ([], Inr (buffer, last_parsed_content))"
| "run_deltas loads results buffer last_parsed_content (content # rest) =
     (case handle_delta loads results buffer last_parsed_content content of
        Inl e \<Rightarrow> ([], Inl e)
      | Inr (evs, buffer', last') \<Rightarrow>
          (case run_deltas loads results buffer' last' rest of
             (evs', r) \<Rightarrow> (evs @ evs', r)))"

text \<open>A parsed value has the expected shape when its \<^verbatim>\<open>"results"\<close> is a list.\<close>

definition list_results :: "json \<Rightarrow> json list option" where
  "list_results parsed =
     (case subscript parsed ''results'' of Inr (JArray items) \<Rightarrow> Some items | _ \<Rightarrow> None)"

text \<open>A delta and the record that ends a stream.\<close>

definition delta :: "string \<Rightarrow> chat_chunk" where
  "delta s = \<lparr>chunk_done = False, chunk_content = s\<rparr>"

definition final_record :: chat_chunk where
  "final_record = \<lparr>chunk_done = True, chunk_content = []\<rparr>"

section \<open>Sample streams\<close>

text \<open>
  An engine that answers the prompt \<open>w\<close> with the item 2 and any other prompt with the
  item 1, the closing bracket and brace arriving in one delta.
\<close>

definition closing_together :: engine where
  \<open>closing_together model_name sp prompt =
     (if prompt = ''w''
      then [delta ''{"results":[2'', delta '']}'', final_record]
      else [delta ''{"results":[1'', delta '']}'', final_record])\<close>

text \<open>
  An engine whose answers end with the closing brace in a delta of its own, after the
  delta that closes the list.
\<close>

definition closing_apart :: engine where
  \<open>closing_apart model_name sp prompt =
     (if prompt = ''w''
      then [delta ''{"results":[{"text":"Bo"}]'', delta ''}'', final_record]
      else [delta ''{"results":[{"text":"Al"}]'', delta ''}'', final_record])\<close>

text \<open>A message of 101 words: two prompt chunks, of 100 words and of one.\<close>

definition hundred_and_one_words :: string where
  "hundred_and_one_words = concat (replicate 100 ''w '') @ ''w''"

text \<open>
  A stream for a detection answer with two items, the second a key that holds a
  closing brace; the second delta ends inside that string.
\<close>

definition brace_in_string :: "chat_chunk list" where
  \<open>brace_in_string =
     [delta ''{"results": [{"entity_type": "NAME", "text": "Al"}'',
      delta '', {"entity_type": "KEYS", "text": "p}'',
      delta ''q"}]}'',
      final_record]\<close>


section \<open>Properties of the chunker\<close>

text \<open>
  The words \<open>split\<close> returns are not empty and hold no whitespace, and splitting a
  space-joined list of such words gives the list back.
\<close>

lemma isspace_space: "isspace (CHR '' '')"
  by (simp add: isspace_def ord_def)

lemma split_from_words:
  "\<forall>c \<in> set w. \<not> isspace c \<Longrightarrow> x \<in> set (split_from w cs) \<Longrightarrow> x \<noteq> [] \<and> (\<forall>c \<in> set x. \<not> isspace c)"
proof (induction cs arbitrary: w)
  case Nil
  then show ?case by (auto split: if_splits)
next
  case (Cons c cs)
  show ?case
  proof (cases "isspace c")
    case True
    with Cons.prems have "x = w \<and> w \<noteq> [] \<or> x \<in> set (split_from [] cs)"
      by (auto split: if_splits)
    then show ?thesis
      using Cons.prems(1) Cons.IH [of "[]"] by auto
  next
    case False
    with Cons.prems have "x \<in> set (split_from (w @ [c]) cs)" by simp
    moreover have "\<forall>d \<in> set (w @ [c]). \<not> isspace d"
      using Cons.prems(1) False by simp
    ultimately show ?thesis using Cons.IH by blast
  qed
qed

lemma split_words:
  "x \<in> set (split s) \<Longrightarrow> x \<noteq> [] \<and> (\<forall>c \<in> set x. \<not> isspace c)"
  unfolding split_def using split_from_words [of "[]" x s] by simp

lemma split_from_word:
  "\<forall>c \<in> set x. \<not> isspace c \<Longrightarrow> split_from w (x @ rest) = split_from (w @ x) rest"
  by (induction x arbitrary: w) simp_all

lemma split_from_join:
  "\<forall>x \<in> set ws. x \<noteq> [] \<and> (\<forall>c \<in> set x. \<not> isspace c) \<Longrightarrow> split_from [] (join ws) = ws"
proof (induction ws rule: join.induct)
  case 1
  then show ?case by simp
next
  case (2 w)
  then show ?case using split_from_word [of w "[]" "[]"] by simp
next
  case (3 w v ws)
  have "split_from [] (w @ CHR '' '' # join (v # ws)) = split_from w (CHR '' '' # join (v # ws))"
    using "3.prems" split_from_word [of w "[]"] by simp
  also have "\<dots> = w # split_from [] (join (v # ws))"
    using "3.prems" isspace_space by simp
  finally show ?case using "3.IH" "3.prems" by simp
qed

lemma split_join:
  "\<forall>x \<in> set ws. x \<noteq> [] \<and> (\<forall>c \<in> set x. \<not> isspace c) \<Longrightarrow> split (join ws) = ws"
  unfolding split_def by (rule split_from_join)

lemma join_append:
  "xs \<noteq> [] \<Longrightarrow> ys \<noteq> [] \<Longrightarrow> join (xs @ ys) = join xs @ CHR '' '' # join ys"
proof (induction xs rule: join.induct)
  case 1
  then show ?case by simp
next
  case (2 w)
  then show ?case by (cases ys) simp_all
next
  case (3 w v ws)
  then show ?case by simp
qed

lemma join_Cons:
  "join (s # ss) = (if ss = [] then s else s @ CHR '' '' # join ss)"
  by (cases ss) simp_all

lemma py_range_Nil: "\<not> (0 < step \<and> i < stop) \<Longrightarrow> py_range i stop step = []"
  by (subst py_range.simps) simp

lemma py_range_Cons:
  "0 < step \<Longrightarrow> i < stop \<Longrightarrow> py_range i stop step = i # py_range (i + step) stop step"
  by (subst py_range.simps) simp

lemma py_range_lower:
  "j \<in> set (py_range i stop step) \<Longrightarrow> i \<le> j \<and> j < stop"
proof (induction i stop step rule: py_range.induct)
  case (1 i stop step)
  show ?case
  proof (cases "0 < step \<and> i < stop")
    case True
    then have "j = i \<or> j \<in> set (py_range (i + step) stop step)"
      using "1.prems" by (simp add: py_range_Cons)
    then show ?thesis using True "1.IH" by auto
  next
    case False
    then show ?thesis using "1.prems" py_range_Nil [of step i stop] by simp
  qed
qed

lemma length_py_range:
  "0 < step \<Longrightarrow> i \<le> stop \<Longrightarrow> int (length (py_range i stop step)) = (stop - i + step - 1) div step"
proof (induction i stop step rule: py_range.induct)
  case (1 i stop step)
  show ?case
  proof (cases "i < stop")
    case False
    then have "i = stop" using "1.prems" by simp
    then show ?thesis using "1.prems" by (simp add: py_range_Nil)
  next
    case True
    show ?thesis
    proof (cases "i + step \<le> stop")
      case le: True
      have "int (length (py_range (i + step) stop step)) = (stop - (i + step) + step - 1) div step"
        using "1.IH" True "1.prems" le by simp
      moreover have "(stop - i + step - 1) div step = (stop - (i + step) + step - 1) div step + 1"
      proof -
        have "stop - i + step - 1 = (stop - (i + step) + step - 1) + step" by simp
        then show ?thesis using "1.prems"(1) by (metis div_add_self2 less_irrefl)
      qed
      ultimately show ?thesis using True "1.prems" by (simp add: py_range_Cons)
    next
      case gt: False
      then have "py_range (i + step) stop step = []" by (simp add: py_range_Nil)
      moreover have "(stop - i + step - 1) div step = 1"
      proof -
        have "stop - i + step - 1 = (stop - i - 1) + step" by simp
        moreover have "(stop - i - 1) div step = 0" using gt True by simp
        ultimately show ?thesis using "1.prems"(1) by (metis div_add_self2 less_irrefl add_0)
      qed
      ultimately show ?thesis using True "1.prems" by (simp add: py_range_Cons)
    qed
  qed
qed

lemma join_segments:
  assumes "0 < W" "0 \<le> i"
  shows "join (map (\<lambda>i. join (slice ws i (i + W))) (py_range i (int (length ws)) W))
           = join (drop (nat i) ws)"
  using assms
proof (induction i "int (length ws)" W rule: py_range.induct)
  case (1 i W)
  let ?n = "int (length ws)"
  show ?case
  proof (cases "i < ?n")
    case False
    then show ?thesis by (simp add: py_range_Nil)
  next
    case True
    have sl: "slice ws i (i + W) = take (nat W) (drop (nat i) ws)"
      using "1.prems" by (simp add: slice_def nat_add_distrib)
    have ne: "take (nat W) (drop (nat i) ws) \<noteq> []"
      using True "1.prems" by simp
    have dr: "drop (nat (i + W)) ws = drop (nat W) (drop (nat i) ws)"
      using "1.prems" by (simp add: nat_add_distrib add.commute)
    show ?thesis
    proof (cases "i + W < ?n")
      case last: False
      then have "py_range (i + W) ?n W = []" by (simp add: py_range_Nil)
      moreover have "take (nat W) (drop (nat i) ws) = drop (nat i) ws"
        using last "1.prems" by simp
      ultimately show ?thesis
        using True "1.prems" sl by (simp add: py_range_Cons)
    next
      case more: True
      have ih: "join (map (\<lambda>i. join (slice ws i (i + W))) (py_range (i + W) ?n W))
                  = join (drop (nat (i + W)) ws)"
        using "1.hyps" True "1.prems" by simp
      have rest_ne: "drop (nat W) (drop (nat i) ws) \<noteq> []"
        using more "1.prems" by simp
      have segs_ne: "map (\<lambda>i. join (slice ws i (i + W))) (py_range (i + W) ?n W) \<noteq> []"
        using more "1.prems" by (simp add: py_range_Cons)
      have "join (map (\<lambda>i. join (slice ws i (i + W))) (py_range i ?n W))
              = join (take (nat W) (drop (nat i) ws)) @ CHR '' '' #
                join (map (\<lambda>i. join (slice ws i (i + W))) (py_range (i + W) ?n W))"
        using True "1.prems" sl segs_ne by (simp add: py_range_Cons join_Cons)
      also have "\<dots> = join (take (nat W) (drop (nat i) ws) @ drop (nat W) (drop (nat i) ws))"
        using ih dr join_append [OF ne rest_ne] by simp
      finally show ?thesis by (metis append_take_drop_id)
    qed
  qed
qed

lemma slice_take_drop:
  "0 < W \<Longrightarrow> 0 \<le> i \<Longrightarrow> slice ws i (i + W) = take (nat W) (drop (nat i) ws)"
  by (simp add: slice_def nat_add_distrib)

lemma slice_length:
  "0 < W \<Longrightarrow> 0 \<le> i \<Longrightarrow> length (slice ws i (i + W)) \<le> nat W"
  by (simp add: slice_take_drop)

lemma slice_subset:
  "0 < W \<Longrightarrow> 0 \<le> i \<Longrightarrow> set (slice ws i (i + W)) \<subseteq> set ws"
  by (simp add: slice_take_drop) (meson set_take_subset set_drop_subset subset_trans)

lemma ceiling_div:
  fixes W :: int
  assumes "0 < W"
  shows "\<lceil>real n / real_of_int W\<rceil> = (int n + W - 1) div W"
proof -
  let ?a = "int n div W" and ?b = "int n mod W"
  have split: "int n = W * ?a + ?b" by simp
  have bounds: "0 \<le> ?b" "?b < W" using assms by simp_all
  have neg: "- (- int n div W) = (if ?b = 0 then ?a else ?a + 1)"
    using assms by (simp add: zdiv_zminus1_eq_if)
  have pos: "(int n + W - 1) div W = (if ?b = 0 then ?a else ?a + 1)"
  proof (cases "?b = 0")
    case True
    have "int n + W - 1 = W * ?a + (W - 1)" using split True by simp
    then have "(int n + W - 1) div W = ?a"
      using assms by (intro int_div_pos_eq [where r = "W - 1"]) simp_all
    then show ?thesis using True by simp
  next
    case False
    have "int n + W - 1 = W * (?a + 1) + (?b - 1)"
      using split by (simp add: algebra_simps)
    moreover have "0 \<le> ?b - 1" "?b - 1 < W" using False bounds by simp_all
    ultimately have "(int n + W - 1) div W = ?a + 1"
      by (intro int_div_pos_eq [where r = "?b - 1"])
    then show ?thesis using False by simp
  qed
  have "\<lceil>real n / real_of_int W\<rceil> = \<lceil>real_of_int (int n) / real_of_int W\<rceil>" by simp
  also have "\<dots> = - (- int n div W)" by (rule ceiling_divide_eq_div)
  finally show ?thesis using neg pos by simp
qed


text \<open>
  Claim C4. For every input text and every maximum word count \<open>W \<ge> 1\<close>, the chunker
  returns segments (it does not raise) whose whitespace-separated word counts are all
  at most \<open>W\<close>; joining the segments with single spaces gives the whitespace-normalised
  input, that is the words of the input joined with single spaces; and the number of
  segments is the ceiling of the word count divided by \<open>W\<close>.
\<close>

theorem chunker_segments:
  assumes "1 \<le> W"
  shows "\<exists>segs. split_into_chunks input_text W = Inr segs
           \<and> (\<forall>s \<in> set segs. int (length (split s)) \<le> W)
           \<and> join segs = join (split input_text)
           \<and> int (length segs) = \<lceil>real (length (split input_text)) / real_of_int W\<rceil>"
proof -
  let ?ws = "split input_text"
  let ?segs = "map (\<lambda>i. join (slice ?ws i (i + W))) (py_range 0 (int (length ?ws)) W)"
  have W: "0 < W" using assms by simp
  have eq: "split_into_chunks input_text W = Inr ?segs"
    using W by (simp add: split_into_chunks_def Let_def)
  have count: "\<forall>s \<in> set ?segs. int (length (split s)) \<le> W"
  proof
    fix s assume "s \<in> set ?segs"
    then obtain i where i: "i \<in> set (py_range 0 (int (length ?ws)) W)"
      and s: "s = join (slice ?ws i (i + W))" by auto
    have i0: "0 \<le> i" using py_range_lower [OF i] by simp
    have "\<forall>x \<in> set (slice ?ws i (i + W)). x \<noteq> [] \<and> (\<forall>c \<in> set x. \<not> isspace c)"
      using slice_subset [OF W i0, of "split input_text"] split_words [of _ input_text] by blast
    then have "split s = slice ?ws i (i + W)" unfolding s by (rule split_join)
    then show "int (length (split s)) \<le> W"
      using slice_length [OF W i0, of "split input_text"] W by (simp add: le_nat_iff)
  qed
  have joined: "join ?segs = join ?ws"
    using join_segments [OF W, of 0 "split input_text"] by simp
  have number: "int (length ?segs) = \<lceil>real (length ?ws) / real_of_int W\<rceil>"
    using length_py_range [of W 0 "int (length ?ws)"] W ceiling_div [OF W, of "length ?ws"]
    by simp
  show ?thesis using eq count joined number by blast
qed


text \<open>The theorem at a text with leading, trailing and repeated blanks and \<open>W = 2\<close>.\<close>

theorem chunker_segments_witness:
  "split_into_chunks ''  a b  c d e  '' 2 = Inr [''a b'', ''c d'', ''e'']
   \<and> list_all (\<lambda>s. int (length (split s)) \<le> 2) [''a b'', ''c d'', ''e'']
   \<and> join [''a b'', ''c d'', ''e''] = join (split ''  a b  c d e  '')
   \<and> int (length [''a b'', ''c d'', ''e''])
         = \<lceil>real (length (split ''  a b  c d e  '')) / real_of_int 2\<rceil>"
proof -
  have run: "split_into_chunks ''  a b  c d e  '' 2 = Inr [''a b'', ''c d'', ''e'']"
    by code_simp
  have "(1::int) \<le> 2" by simp
  from chunker_segments [OF this, of "''  a b  c d e  ''"] run show ?thesis
    by (simp add: list_all_iff)
qed

section \<open>Snapshots: running total first\<close>

lemma subscript_setitem:
  "subscript obj k = Inr r \<Longrightarrow> subscript (setitem obj k v) k = Inr v"
  by (cases obj) (auto simp: subscript_def setitem_def update_conv' split: option.splits)

lemma list_add_array:
  "list_add results r = Inr merged \<Longrightarrow> \<exists>items. r = JArray items \<and> merged = results @ items"
  by (cases r) (auto simp: list_add_def)

lemma handle_delta_snapshot:
  assumes "handle_delta loads results buffer lp content = Inr (evs, b, l)"
    and "Snapshot s \<in> set evs"
  shows "\<exists>parsed items. loads (repaired_prefix buffer content) = Some parsed
           \<and> subscript parsed ''results'' = Inr (JArray items)
           \<and> results_of s = Inr (JArray (results @ items))"
  using assms
  by (auto simp: handle_delta_def Let_def results_of_def subscript_setitem
           split: if_splits option.splits sum.splits dest!: list_add_array)

lemma consume_stream_snapshot:
  assumes "Snapshot s \<in> set (fst (consume_stream loads results buffer lp stream))"
  shows "\<exists>b c parsed items. loads (repaired_prefix b c) = Some parsed
           \<and> subscript parsed ''results'' = Inr (JArray items)
           \<and> results_of s = Inr (JArray (results @ items))"
  using assms
proof (induction stream arbitrary: buffer lp)
  case Nil
  then show ?case by simp
next
  case (Cons chunk rest)
  show ?case
  proof (cases "chunk_done chunk")
    case True
    then show ?thesis using Cons.prems
      by (auto simp: handle_done_def split: option.splits sum.splits)
  next
    case False
    show ?thesis
    proof (cases "handle_delta loads results buffer lp (chunk_content chunk)")
      case (Inl e)
      then show ?thesis using Cons.prems False by simp
    next
      case (Inr st)
      obtain evs b l where st: "st = (evs, b, l)" by (cases st) auto
      obtain evs' r where rest: "consume_stream loads results b l rest = (evs', r)"
        by (cases "consume_stream loads results b l rest") auto
      have "Snapshot s \<in> set evs \<or> Snapshot s \<in> set evs'"
        using Cons.prems False Inr st rest by simp
      then show ?thesis
      proof
        assume "Snapshot s \<in> set evs"
        then show ?thesis using handle_delta_snapshot Inr st by blast
      next
        assume "Snapshot s \<in> set evs'"
        then show ?thesis using Cons.IH [of b l] rest by simp
      qed
    qed
  qed
qed

lemma split_into_chunks_default:
  "split_into_chunks s 100 =
     Inr (map (\<lambda>i. join (slice (split s) i (i + 100))) (py_range 0 (int (length (split s))) 100))"
  by (simp add: split_into_chunks_def Let_def)


lemma get_response_stream_process:
  "prompt_chunks user_message chunking = Inr ps \<Longrightarrow>
   get_response_stream loads chat m sp user_message chunking =
     process_chunks loads chat m sp [] ps"
  by (simp add: get_response_stream_def)

lemma hundred_and_one_words_chunks:
  "prompt_chunks hundred_and_one_words True = Inr [join (replicate 100 ''w''), ''w'']"
  by code_simp




section \<open>The last record of a stream\<close>

lemma list_results_Some:
  "list_results parsed = Some items \<longleftrightarrow> subscript parsed ''results'' = Inr (JArray items)"
  by (auto simp: list_results_def split: sum.splits json.splits)

lemma list_add_list_results:
  "subscript parsed ''results'' = Inr r \<Longrightarrow> list_add results r = Inr merged
     \<Longrightarrow> \<exists>items. list_results parsed = Some items \<and> merged = results @ items"
  by (cases r) (auto simp: list_add_def list_results_def)

text \<open>The stored string, once it parses, parses to a value of the expected shape.\<close>

lemma handle_delta_keeps_shape:
  assumes "handle_delta loads results buffer lp content = Inr (evs, b, l)"
    and "\<forall>parsed. loads lp = Some parsed \<longrightarrow> list_results parsed \<noteq> None"
  shows "\<forall>parsed. loads l = Some parsed \<longrightarrow> list_results parsed \<noteq> None"
  using assms
  by (auto simp: handle_delta_def Let_def split: if_splits option.splits sum.splits
           dest!: list_add_list_results)

lemma run_deltas_keeps_shape:
  assumes "run_deltas loads results buffer lp cs = (evs, Inr (b, l))"
    and "\<forall>parsed. loads lp = Some parsed \<longrightarrow> list_results parsed \<noteq> None"
  shows "\<forall>parsed. loads l = Some parsed \<longrightarrow> list_results parsed \<noteq> None"
  using assms
proof (induction cs arbitrary: buffer lp evs)
  case Nil
  then show ?case by simp
next
  case (Cons c cs)
  from Cons.prems(1) obtain evs1 b1 l1 evs2 where
    h: "handle_delta loads results buffer lp c = Inr (evs1, b1, l1)"
    and r: "run_deltas loads results b1 l1 cs = (evs2, Inr (b, l))"
    by (auto split: sum.splits prod.splits)
  from handle_delta_keeps_shape [OF h Cons.prems(2)]
  show ?case using Cons.IH [OF r] by blast
qed

lemma consume_stream_run_deltas:
  assumes "\<forall>d \<in> set deltas. \<not> chunk_done d"
  shows "consume_stream loads results buffer lp (deltas @ rest) =
           (case run_deltas loads results buffer lp (map chunk_content deltas) of
              (evs, Inl e) \<Rightarrow> (evs, Inl e)
            | (evs, Inr (b, l)) \<Rightarrow>
                (case consume_stream loads results b l rest of (evs', r) \<Rightarrow> (evs @ evs', r)))"
  using assms
proof (induction deltas arbitrary: buffer lp)
  case Nil
  then show ?case by (simp split: prod.splits)
next
  case (Cons d deltas)
  then show ?case
    by (auto split: sum.splits prod.splits)
qed

lemma handle_done_failed:
  "loads lp = None \<Longrightarrow> handle_done loads results lp = ([Error_in_buffer lp], Inr results)"
  by (simp add: handle_done_def)

lemma handle_done_parsed:
  "loads lp = Some parsed \<Longrightarrow> list_results parsed = Some items
     \<Longrightarrow> handle_done loads results lp = ([], Inr (results @ items))"
  by (simp add: handle_done_def list_results_Some list_extend_def)

text \<open>
  Claim C6. Take a chunk whose stream reaches its record marked done after deltas that
  raise nothing, and let \<open>lp\<close> be \<^verbatim>\<open>last_parsed_content\<close> at that point. The record parses
  \<open>lp\<close> once. If the parse fails, the chunk adds nothing to the running total, the
  failure is reported as \<open>Error_in_buffer\<close> and not raised, and the loop goes on with the
  remaining prompt chunks (or ends, when there is none). If the parse succeeds, the
  parsed value has a result list, and the loop goes on with the running total extended
  by that list. \<^verbatim>\<open>json.loads\<close> rejects the empty string, which is what \<open>lp\<close> is before the
  first repaired prefix.
\<close>

theorem terminal_parse:
  assumes stream: "chat m sp p = deltas @ fin # rest"
    and deltas: "\<forall>d \<in> set deltas. \<not> chunk_done d"
    and fin: "chunk_done fin"
    and state: "run_deltas loads results [] [] (map chunk_content deltas) = (evs, Inr (buffer, lp))"
    and empty: "loads [] = None"
  shows "(loads lp = None \<longrightarrow>
            process_chunks loads chat m sp results (p # ps) =
              (let r = process_chunks loads chat m sp results ps in
               \<lparr>events = evs @ Error_in_buffer lp # events r,
                invocations = p # invocations r, outcome = outcome r\<rparr>))
       \<and> (\<forall>parsed. loads lp = Some parsed \<longrightarrow>
            (\<exists>items. subscript parsed ''results'' = Inr (JArray items)
               \<and> process_chunks loads chat m sp results (p # ps) =
                   (let r = process_chunks loads chat m sp (results @ items) ps in
                    \<lparr>events = evs @ events r,
                     invocations = p # invocations r, outcome = outcome r\<rparr>)))"
proof (intro conjI impI allI)
  have split: "consume_stream loads results [] [] (chat m sp p) =
      (case handle_done loads results lp of (evs', r) \<Rightarrow> (evs @ evs', r))"
    using consume_stream_run_deltas [OF deltas, of loads results "[]" "[]" "fin # rest"]
      state fin stream by simp
  {
    assume "loads lp = None"
    then have "consume_stream loads results [] [] (chat m sp p) = (evs @ [Error_in_buffer lp], Inr results)"
      using split by (simp add: handle_done_failed)
    then show "process_chunks loads chat m sp results (p # ps) =
              (let r = process_chunks loads chat m sp results ps in
               \<lparr>events = evs @ Error_in_buffer lp # events r,
                invocations = p # invocations r, outcome = outcome r\<rparr>)"
      by (simp add: Let_def)
  }
  {
    fix parsed assume parsed: "loads lp = Some parsed"
    have "\<forall>parsed. loads [] = Some parsed \<longrightarrow> list_results parsed \<noteq> None"
      using empty by simp
    from run_deltas_keeps_shape [OF state this] parsed
    obtain items where items: "list_results parsed = Some items" by auto
    then have "consume_stream loads results [] [] (chat m sp p) = (evs, Inr (results @ items))"
      using split parsed by (simp add: handle_done_parsed)
    then have "process_chunks loads chat m sp results (p # ps) =
                   (let r = process_chunks loads chat m sp (results @ items) ps in
                    \<lparr>events = evs @ events r,
                     invocations = p # invocations r, outcome = outcome r\<rparr>)"
      by (simp add: Let_def)
    then show "\<exists>items. subscript parsed ''results'' = Inr (JArray items)
               \<and> process_chunks loads chat m sp results (p # ps) =
                   (let r = process_chunks loads chat m sp (results @ items) ps in
                    \<lparr>events = evs @ events r,
                     invocations = p # invocations r, outcome = outcome r\<rparr>)"
      using items list_results_Some by blast
  }
qed

text \<open>
  The theorem at a stream whose stored string fails to parse at the end, and at one
  whose stored string parses.
\<close>

theorem terminal_parse_witness:
  \<open>process_chunks json_loads closing_apart global_base_model Detect_prompt [] [''w'']
     = \<lparr>events = [Snapshot (JObject [(''results'', JArray [JObject [(''text'', JString ''Bo'')]])]),
                 Decode_error ''}'',
                 Error_in_buffer ''{"results":[{"text":"Bo"}]}]}''],
        invocations = [''w''], outcome = Inr []\<rparr>
   \<and> (\<exists>items. subscript (JObject [(''results'', JArray [JNumber ''1''])]) ''results'' = Inr (JArray items)
        \<and> process_chunks json_loads closing_together global_base_model Detect_prompt [] [''one'']
            = \<lparr>events = [Snapshot (JObject [(''results'', JArray [JNumber ''1''])])],
               invocations = [''one''], outcome = Inr ([] @ items)\<rparr>)\<close>
proof -
  have empty: "json_loads [] = None" by code_simp
  have fin: "chunk_done final_record" by (simp add: final_record_def)
  have s1: \<open>closing_apart global_base_model Detect_prompt ''w''
      = [delta ''{"results":[{"text":"Bo"}]'', delta ''}''] @ final_record # []\<close>
    by (simp add: closing_apart_def)
  have d1: \<open>\<forall>d \<in> set [delta ''{"results":[{"text":"Bo"}]'', delta ''}'']. \<not> chunk_done d\<close>
    by (simp add: delta_def)
  have r1: \<open>run_deltas json_loads [] [] []
        (map chunk_content [delta ''{"results":[{"text":"Bo"}]'', delta ''}''])
      = ([Snapshot (JObject [(''results'', JArray [JObject [(''text'', JString ''Bo'')]])]),
          Decode_error ''}''],
         Inr (''{"results":[{"text":"Bo"}]'', ''{"results":[{"text":"Bo"}]}]}''))\<close>
    by code_simp
  have f1: \<open>json_loads ''{"results":[{"text":"Bo"}]}]}'' = None\<close> by code_simp
  have first: \<open>process_chunks json_loads closing_apart global_base_model Detect_prompt [] [''w'']
     = \<lparr>events = [Snapshot (JObject [(''results'', JArray [JObject [(''text'', JString ''Bo'')]])]),
                 Decode_error ''}'',
                 Error_in_buffer ''{"results":[{"text":"Bo"}]}]}''],
        invocations = [''w''], outcome = Inr []\<rparr>\<close>
    using terminal_parse [where chat = closing_apart and loads = json_loads and ps = "[]",
        OF s1 d1 fin r1 empty] f1
    by simp
  have s2: \<open>closing_together global_base_model Detect_prompt ''one''
      = [delta ''{"results":[1'', delta '']}''] @ final_record # []\<close>
    by (simp add: closing_together_def)
  have d2: \<open>\<forall>d \<in> set [delta ''{"results":[1'', delta '']}'']. \<not> chunk_done d\<close>
    by (simp add: delta_def)
  have r2: \<open>run_deltas json_loads [] [] [] (map chunk_content [delta ''{"results":[1'', delta '']}''])
      = ([Snapshot (JObject [(''results'', JArray [JNumber ''1''])])],
         Inr (''{"results":[1]}'', ''{"results":[1]}''))\<close>
    by code_simp
  have f2: \<open>json_loads ''{"results":[1]}'' = Some (JObject [(''results'', JArray [JNumber ''1''])])\<close>
    by code_simp
  have second: \<open>\<exists>items. subscript (JObject [(''results'', JArray [JNumber ''1''])]) ''results'' = Inr (JArray items)
        \<and> process_chunks json_loads closing_together global_base_model Detect_prompt [] [''one'']
            = \<lparr>events = [Snapshot (JObject [(''results'', JArray [JNumber ''1''])])],
               invocations = [''one''], outcome = Inr ([] @ items)\<rparr>\<close>
    using terminal_parse [where chat = closing_together and loads = json_loads and ps = "[]",
        OF s2 d2 fin r2 empty] f2
    by simp
  show ?thesis using first second by blast
qed

section \<open>Exceptions that leave the generator\<close>













section \<open>The endpoints\<close>

lemma split_from_blank:
  "\<forall>c \<in> set s. isspace c \<Longrightarrow> split_from [] s = []"
  by (induction s) simp_all

lemma single_chunk_invocations:
  "invocations (process_chunks loads chat m sp results [p]) = [p]"
  by (cases "consume_stream loads results [] [] (chat m sp p)") (auto split: sum.splits)

lemma single_chunk_run:
  "(events (process_chunks loads chat m sp results [p]),
    outcome (process_chunks loads chat m sp results [p]))
     = consume_stream loads results [] [] (chat m sp p)"
  by (cases "consume_stream loads results [] [] (chat m sp p)") (auto split: sum.splits)

lemma abstract_response:
  "data ''message'' = Some msg \<Longrightarrow> msg \<noteq> [] \<Longrightarrow>
   abstract loads chat data =
     Stream_response (process_chunks loads chat global_base_model Abstract_prompt [] [msg])"
  by (simp add: abstract_def get_message_def get_response_stream_def prompt_chunks_def
           del: process_chunks.simps)



text \<open>
  Claim C9. For a request to \<^verbatim>\<open>/abstract\<close> with a non-empty message there is exactly one
  model invocation, its user text is the whole message, and the run is that of the one
  stream started with an empty running total: every snapshot's result list is the empty
  list followed by the list parsed from a repaired prefix.
\<close>

theorem abstract_one_invocation:
  assumes "data ''message'' = Some msg" and "msg \<noteq> []"
  shows "\<exists>r. abstract loads chat data = Stream_response r
           \<and> invocations r = [msg]
           \<and> (events r, outcome r) =
               consume_stream loads [] [] [] (chat global_base_model Abstract_prompt msg)
           \<and> (\<forall>s. Snapshot s \<in> set (events r) \<longrightarrow>
                 (\<exists>b c parsed items. loads (repaired_prefix b c) = Some parsed
                    \<and> subscript parsed ''results'' = Inr (JArray items)
                    \<and> results_of s = Inr (JArray ([] @ items))))"
proof -
  let ?c = "consume_stream loads [] [] [] (chat global_base_model Abstract_prompt msg)"
  let ?r = "process_chunks loads chat global_base_model Abstract_prompt [] [msg]"
  have rsp: "abstract loads chat data = Stream_response ?r"
    using assms by (rule abstract_response)
  have inv: "invocations ?r = [msg]"
    by (rule single_chunk_invocations)
  have run: "(events ?r, outcome ?r) = ?c"
    by (rule single_chunk_run)
  have snap: "\<forall>s. Snapshot s \<in> set (events ?r) \<longrightarrow>
                 (\<exists>b c parsed items. loads (repaired_prefix b c) = Some parsed
                    \<and> subscript parsed ''results'' = Inr (JArray items)
                    \<and> results_of s = Inr (JArray ([] @ items)))"
  proof (intro allI impI)
    fix s assume "Snapshot s \<in> set (events ?r)"
    then have "Snapshot s \<in> set (fst ?c)" using run by (metis fst_conv)
    from consume_stream_snapshot [OF this] show "\<exists>b c parsed items. loads (repaired_prefix b c) = Some parsed
                    \<and> subscript parsed ''results'' = Inr (JArray items)
                    \<and> results_of s = Inr (JArray ([] @ items))" .
  qed
  show ?thesis using rsp inv run snap by blast
qed

text \<open>
  The theorem at the message \<open>one\<close>.
\<close>

theorem abstract_one_invocation_witness:
  "model_calls (abstract json_loads closing_together [''message'' \<mapsto> ''one'']) = [''one'']
   \<and> (\<exists>r. abstract json_loads closing_together [''message'' \<mapsto> ''one''] = Stream_response r
         \<and> invocations r = [''one'']
         \<and> events r = [Snapshot (JObject [(''results'', JArray [JNumber ''1''])])])"
proof -
  have m: "[''message'' \<mapsto> ''one''] ''message'' = Some ''one''" by simp
  have n: "''one'' \<noteq> []" by simp
  have c: "consume_stream json_loads [] [] [] (closing_together global_base_model Abstract_prompt ''one'')
      = ([Snapshot (JObject [(''results'', JArray [JNumber ''1''])])], Inr [JNumber ''1''])"
    by code_simp
  from abstract_one_invocation [where loads = json_loads and chat = closing_together
      and data = "[''message'' \<mapsto> ''one'']" and msg = "''one''", OF m n]
  obtain r where r: "abstract json_loads closing_together [''message'' \<mapsto> ''one''] = Stream_response r"
    "invocations r = [''one'']"
    "(events r, outcome r) =
       consume_stream json_loads [] [] [] (closing_together global_base_model Abstract_prompt ''one'')"
    by blast
  then have "events r = [Snapshot (JObject [(''results'', JArray [JNumber ''1''])])]"
    using c by simp
  then show ?thesis using r by (simp add: model_calls_def)
qed

text \<open>
  Claim C10. A message that is not empty and holds only whitespace passes the
  emptiness check of \<^verbatim>\<open>/detect\<close>; the chunker gives no segment, so the reply is a stream
  with no event and no model invocation that ends normally. On \<^verbatim>\<open>/abstract\<close> the same
  message is sent to the model as one chunk.
\<close>

theorem whitespace_message:
  assumes "data ''message'' = Some msg" and "msg \<noteq> []" and "\<forall>c \<in> set msg. isspace c"
  shows "detect loads chat data = Stream_response \<lparr>events = [], invocations = [], outcome = Inr []\<rparr>
       \<and> split_into_chunks msg 100 = Inr []
       \<and> model_calls (detect loads chat data) = []
       \<and> model_calls (abstract loads chat data) = [msg]"
proof -
  have words: "split msg = []"
    using assms(3) by (simp add: split_def split_from_blank)
  have chunks: "split_into_chunks msg 100 = Inr []"
    by (simp add: split_into_chunks_default words py_range_Nil)
  have d: "detect loads chat data = Stream_response \<lparr>events = [], invocations = [], outcome = Inr []\<rparr>"
    using assms(1,2) chunks
    by (simp add: detect_def get_message_def get_response_stream_def prompt_chunks_def)
  have a: "model_calls (abstract loads chat data) = [msg]"
    using abstract_response [of data msg loads chat] assms(1,2)
    by (simp add: model_calls_def single_chunk_invocations del: process_chunks.simps)
  show ?thesis using chunks d a by (simp add: model_calls_def)
qed

text \<open>
  The theorem at a message of three blanks.
\<close>

theorem whitespace_message_witness:
  "detect json_loads closing_together [''message'' \<mapsto> ''   '']
     = Stream_response \<lparr>events = [], invocations = [], outcome = Inr []\<rparr>
   \<and> split_into_chunks ''   '' 100 = Inr []
   \<and> model_calls (detect json_loads closing_together [''message'' \<mapsto> ''   '']) = []
   \<and> model_calls (abstract json_loads closing_together [''message'' \<mapsto> ''   '']) = [''   '']"
proof -
  have m: "[''message'' \<mapsto> ''   ''] ''message'' = Some ''   ''" by simp
  have n: "''   '' \<noteq> []" by simp
  have w: "\<forall>c \<in> set ''   ''. isspace c" by (simp add: isspace_def ord_def)
  from whitespace_message [where loads = json_loads and chat = closing_together
      and data = "[''message'' \<mapsto> ''   '']" and msg = "''   ''", OF m n w]
  show ?thesis .
qed

section \<open>Where the generator loses text and results\<close>

text \<open>
  For any reader: a delta with a closing bracket or brace whose repaired prefix fails to
  parse leaves \<^verbatim>\<open>buffer\<close> as it was, and the repaired prefix becomes
  \<^verbatim>\<open>last_parsed_content\<close>.
\<close>

lemma failed_parse_keeps_buffer:
  assumes "CHR '']'' \<in> set content \<or> CHR ''}'' \<in> set content"
    and "loads (repaired_prefix buffer content) = None"
  shows "handle_delta loads results buffer lp content =
           Inr ([Decode_error content], buffer, repaired_prefix buffer content)"
  using assms by (auto simp: handle_delta_def Let_def)

text \<open>
  Claim C3 says that a delta with a closing bracket or brace whose repaired prefix
  fails to parse is still appended to \<^verbatim>\<open>buffer\<close>. In the code \<^verbatim>\<open>buffer += content\<close> stands
  inside the \<^verbatim>\<open>try\<close> after \<^verbatim>\<open>json.loads\<close>, so the exception skips it. Here the buffer
  holds a first item, the delta ends inside a string that holds a brace, and after the
  round the buffer is what it was: the delta is lost. No snapshot is emitted, as the
  claim says.
\<close>

theorem failed_delta_dropped:
  \<open>handle_delta json_loads []
      ''{"results": [{"entity_type": "NAME", "text": "Al"}''
      ''{"results": [{"entity_type": "NAME", "text": "Al"}]}''
      '', {"entity_type": "KEYS", "text": "p}''
     = Inr ([Decode_error '', {"entity_type": "KEYS", "text": "p}''],
            ''{"results": [{"entity_type": "NAME", "text": "Al"}'',
            ''{"results": [{"entity_type": "NAME", "text": "Al"}, {"entity_type": "KEYS", "text": "p}]}'')\<close>
  by code_simp

text \<open>
  Claim C2 says that the last snapshot holds the result list of the whole answer,
  however the answer is split into deltas. With the deltas of \<open>brace_in_string\<close>, whose
  concatenation is a valid object with two items, the second delta is lost as above,
  no later repaired prefix parses, and the only snapshot holds the first item alone.
\<close>

theorem last_snapshot_incomplete:
  "snapshots (fst (consume_stream json_loads [] [] [] brace_in_string))
     = [JObject [(''results'',
          JArray [JObject [(''entity_type'', JString ''NAME''), (''text'', JString ''Al'')]])]]
   \<and> json_loads (concat (map chunk_content brace_in_string))
     = Some (JObject [(''results'',
          JArray [JObject [(''entity_type'', JString ''NAME''), (''text'', JString ''Al'')],
                  JObject [(''entity_type'', JString ''KEYS''), (''text'', JString ''p}q'')]])])"
  by code_simp

text \<open>
  Claim C1 says that a result, once in a snapshot, is in every later snapshot of the
  request. \<^verbatim>\<open>last_parsed_content\<close> is assigned before \<^verbatim>\<open>json.loads\<close> is called, so it
  also holds strings that did not parse. When the closing brace of an answer comes in a
  delta of its own, the last repaired prefix is not valid JSON, the parse at the end of
  the stream fails, and the chunk's results never reach the running total. For a message
  of 101 words the first chunk's item is in the first snapshot and missing from the
  second, and the request ends with an empty total.
\<close>

theorem running_total_lost:
  "snapshots (events (get_response_stream json_loads closing_apart global_base_model Detect_prompt
                        hundred_and_one_words True))
     = [JObject [(''results'', JArray [JObject [(''text'', JString ''Al'')]])],
        JObject [(''results'', JArray [JObject [(''text'', JString ''Bo'')]])]]
   \<and> invocations (get_response_stream json_loads closing_apart global_base_model Detect_prompt
                     hundred_and_one_words True)
     = [join (replicate 100 ''w''), ''w'']
   \<and> outcome (get_response_stream json_loads closing_apart global_base_model Detect_prompt
                 hundred_and_one_words True) = Inr []"
proof -
  have \<open>process_chunks json_loads closing_apart global_base_model Detect_prompt []
                [join (replicate 100 ''w''), ''w'']
     = \<lparr>events =
          [Snapshot (JObject [(''results'', JArray [JObject [(''text'', JString ''Al'')]])]),
           Decode_error ''}'',
           Error_in_buffer ''{"results":[{"text":"Al"}]}]}'',
           Snapshot (JObject [(''results'', JArray [JObject [(''text'', JString ''Bo'')]])]),
           Decode_error ''}'',
           Error_in_buffer ''{"results":[{"text":"Bo"}]}]}''],
        invocations = [join (replicate 100 ''w''), ''w''],
        outcome = Inr []\<rparr>\<close>
    by code_simp
  then show ?thesis
    by (simp add: get_response_stream_process [OF hundred_and_one_words_chunks]
             del: process_chunks.simps)
qed

end
